theory Spec2Isabelle
  imports Main "HOL-Library.Word"
begin

unbundle bit_operations_syntax

section \<open>Machine integers\<close>

text \<open>
  The fixed-width integer types of \<^verbatim>\<open>irrlichttypes.h\<close>. A word carries only its bit
  pattern: \<open>sint\<close> reads it as a signed value, \<open>uint\<close> as an unsigned one, so a cast
  between \<^verbatim>\<open>s16\<close> and \<^verbatim>\<open>u16\<close> is the identity on the word, a widening cast from a
  signed type is \<open>scast\<close> (sign extension), a widening cast from an unsigned type is
  \<open>ucast\<close> (zero extension), and a narrowing cast is \<open>ucast\<close> (truncation).
  \<^verbatim>\<open>size_t\<close> is taken to be 64 bits wide, as the shifts by 48 in \<^verbatim>\<open>v4s16::Hash\<close>
  require. Left shifts of signed 64-bit values are modelled as two's complement
  (\<open>push_bit\<close> on the word), which is what the compilers in use produce.
\<close>

type_synonym s16 = "16 word"
type_synonym u16 = "16 word"
type_synonym s32 = "32 word"
type_synonym s64 = "64 word"
type_synonym u64 = "64 word"
type_synonym size_t = "64 word"

section \<open>Coordinates (\<^verbatim>\<open>irr_v3d.h\<close>)\<close>

text \<open>\<^verbatim>\<open>typedef core::vector3d<s16> v3s16;\<close>\<close>

record v3s16 =
  X :: s16
  Y :: s16
  Z :: s16

text \<open>\<^verbatim>\<open>struct v4s16 { s16 X, Y, Z, P = 0; ... };\<close>\<close>

record v4s16 =
  X :: s16
  Y :: s16
  Z :: s16
  P :: s16

text \<open>
  \<^verbatim>\<open>v4s16(s16 x, s16 y, s16 z, s16 p = 0) : X(x), Y(y), Z(z), P(p) {}\<close>
  The constructor with all four arguments, and the call that leaves the default
  argument to the compiler.
\<close>

definition v4s16_xyzp :: "s16 \<Rightarrow> s16 \<Rightarrow> s16 \<Rightarrow> s16 \<Rightarrow> v4s16" where
  "v4s16_xyzp x y z p = \<lparr>v4s16.X = x, Y = y, Z = z, P = p\<rparr>"

definition v4s16_xyz :: "s16 \<Rightarrow> s16 \<Rightarrow> s16 \<Rightarrow> v4s16" where
  "v4s16_xyz x y z = v4s16_xyzp x y z 0"

text \<open>
  \<^verbatim>\<open>v4s16(const v3s16& pos, s16 p = 0) : X(pos.X), Y(pos.Y), Z(pos.Z), P(p) {}\<close>
\<close>

definition v4s16_pos_p :: "v3s16 \<Rightarrow> s16 \<Rightarrow> v4s16" where
  "v4s16_pos_p pos p = \<lparr>v4s16.X = v3s16.X pos, Y = v3s16.Y pos, Z = v3s16.Z pos, P = p\<rparr>"

definition v4s16_pos :: "v3s16 \<Rightarrow> v4s16" where
  "v4s16_pos pos = v4s16_pos_p pos 0"

text \<open>\<^verbatim>\<open>v3s16 toV3s16() const { return v3s16(X, Y, Z); }\<close>\<close>

definition toV3s16 :: "v4s16 \<Rightarrow> v3s16" where
  "toV3s16 this = \<lparr>v3s16.X = v4s16.X this, Y = v4s16.Y this, Z = v4s16.Z this\<rparr>"

text \<open>\<^verbatim>\<open>bool operator==(const v4s16& other) const\<close> and \<^verbatim>\<open>operator!=\<close>.\<close>

definition operator_eq :: "v4s16 \<Rightarrow> v4s16 \<Rightarrow> bool" where
  "operator_eq this other \<longleftrightarrow>
     v4s16.X this = v4s16.X other \<and> v4s16.Y this = v4s16.Y other \<and>
     v4s16.Z this = v4s16.Z other \<and> P this = P other"

definition operator_neq :: "v4s16 \<Rightarrow> v4s16 \<Rightarrow> bool" where
  "operator_neq this other \<longleftrightarrow> \<not> operator_eq this other"

text \<open>
  \<^verbatim>\<open>v4s16::Hash::operator()\<close>:
  \<^verbatim>\<open>
  u16 x = (u16)pos.X; u16 y = (u16)pos.Y; u16 z = (u16)pos.Z; u16 p = (u16)pos.P;
  return ((size_t)x << 48) ^ ((size_t)y << 32) ^ ((size_t)z << 16) ^ (size_t)p;
  \<close>
\<close>

definition Hash :: "v4s16 \<Rightarrow> size_t" where
  "Hash pos =
     (let x = (v4s16.X pos :: u16); y = (v4s16.Y pos :: u16);
          z = (v4s16.Z pos :: u16); p = (P pos :: u16)
      in push_bit 48 (ucast x :: size_t) XOR push_bit 32 (ucast y :: size_t)
           XOR push_bit 16 (ucast z :: size_t) XOR (ucast p :: size_t))"

text \<open>
  The lane order as the specification words it (Phase in the highest lane, then Z, then
  Y, then X in the lowest lane). It is compared with \<open>Hash\<close> below and used nowhere else.
\<close>

definition spec_Hash :: "v4s16 \<Rightarrow> size_t" where
  "spec_Hash c =
     push_bit 48 (ucast (P c) :: size_t) XOR push_bit 32 (ucast (v4s16.Z c) :: size_t)
       XOR push_bit 16 (ucast (v4s16.Y c) :: size_t) XOR (ucast (v4s16.X c) :: size_t)"

section \<open>Position encoding for persistence (\<^verbatim>\<open>database.cpp\<close>)\<close>

text \<open>
  The legacy encoding:
  \<^verbatim>\<open>
  s64 MapDatabase::getBlockAsInteger(const v3s16 &pos)
  { return ((s64) pos.Z << 24) + ((s64) pos.Y << 12) + pos.X; }
  \<close>
  Each component is sign-extended to 64 bits; nothing is added to it.
\<close>

definition getBlockAsInteger_v3s16 :: "v3s16 \<Rightarrow> s64" where
  "getBlockAsInteger_v3s16 pos =
     push_bit 24 (scast (v3s16.Z pos) :: s64) + push_bit 12 (scast (v3s16.Y pos) :: s64)
       + scast (v3s16.X pos)"

text \<open>
  \<^verbatim>\<open>
  v3s16 MapDatabase::getIntegerAsBlock(s64 i)
  {
    i = i + 0x800800800;
    return { (s16)( (i        & 0xFFF) - 0x800),
             (s16)(((i >> 12) & 0xFFF) - 0x800),
             (s16)(((i >> 24) & 0xFFF) - 0x800) };
  }
  \<close>
  The right shift of the signed \<^verbatim>\<open>i\<close> is arithmetic.
\<close>

definition getIntegerAsBlock_v3s16 :: "s64 \<Rightarrow> v3s16" where
  "getIntegerAsBlock_v3s16 i0 =
     (let i = i0 + 0x800800800 in
      \<lparr> v3s16.X = ucast ((i AND 0xFFF) - 0x800),
        Y = ucast ((signed_drop_bit 12 i AND 0xFFF) - 0x800),
        Z = ucast ((signed_drop_bit 24 i AND 0xFFF) - 0x800) \<rparr>)"

text \<open>
  The phase-aware encoding:
  \<^verbatim>\<open>
  s64 MapDatabase::getBlockAsInteger(const v4s16 &pos)
  {
    u16 x = (u16)pos.X; u16 y = (u16)pos.Y; u16 z = (u16)pos.Z; u16 p = (u16)pos.P;
    return ((s64) p << 48) + ((s64) z << 32) + ((s64) y << 16) + x;
  }
  \<close>
\<close>

definition getBlockAsInteger_v4s16 :: "v4s16 \<Rightarrow> s64" where
  "getBlockAsInteger_v4s16 pos =
     (let x = (v4s16.X pos :: u16); y = (v4s16.Y pos :: u16);
          z = (v4s16.Z pos :: u16); p = (P pos :: u16)
      in push_bit 48 (ucast p :: s64) + push_bit 32 (ucast z :: s64)
           + push_bit 16 (ucast y :: s64) + ucast x)"

text \<open>
  \<^verbatim>\<open>
  v4s16 MapDatabase::getIntegerAsBlock(s64 i)
  {
    return { (s16)( i        & 0xFFFF), (s16)(((i >> 16) & 0xFFFF)),
             (s16)(((i >> 32) & 0xFFFF)), (s16)(((i >> 48) & 0xFFFF)) };
  }
  \<close>
\<close>

definition getIntegerAsBlock_v4s16 :: "s64 \<Rightarrow> v4s16" where
  "getIntegerAsBlock_v4s16 i =
     \<lparr> v4s16.X = ucast (i AND 0xFFFF),
       Y = ucast (signed_drop_bit 16 i AND 0xFFFF),
       Z = ucast (signed_drop_bit 32 i AND 0xFFFF),
       P = ucast (signed_drop_bit 48 i AND 0xFFFF) \<rparr>"

text \<open>
  The legacy encoder as the specification words it: every component is first moved into
  non-negative space by the offset \<open>0x800\<close>, and the three 12-bit lanes are packed
  afterwards. It is compared with \<open>getBlockAsInteger_v3s16\<close> below and used nowhere
  else.
\<close>

definition pack12 :: "int \<Rightarrow> int \<Rightarrow> int \<Rightarrow> int" where
  "pack12 a b c = c * 2 ^ 24 + b * 2 ^ 12 + a"

definition spec_legacy_encode :: "v3s16 \<Rightarrow> s64" where
  "spec_legacy_encode pos =
     word_of_int (pack12 (sint (v3s16.X pos) + 0x800) (sint (v3s16.Y pos) + 0x800)
                         (sint (v3s16.Z pos) + 0x800))"

text \<open>A component fits the signed 12-bit lane of the legacy encoding.\<close>

definition in_lane12 :: "s16 \<Rightarrow> bool" where
  "in_lane12 v \<longleftrightarrow> - 2048 \<le> sint v \<and> sint v \<le> 2047"

section \<open>Phase seed (\<^verbatim>\<open>servermap.cpp\<close>)\<close>

text \<open>
  \<^verbatim>\<open>u16 phase_id = (u16)p.P;\<close>
\<close>

definition phase_id :: "s16 \<Rightarrow> u16" where
  "phase_id p = p"

text \<open>
  \<^verbatim>\<open>
  u64 base_seed = getSeed();
  u64 phase_modified_seed = base_seed + phase_id;
  m_emerge->mapgen->seed = (s32)phase_modified_seed;
  \<close>
  The 16-bit phase identifier is zero-extended to 64 bits for the addition.
\<close>

definition phase_modified_seed :: "u64 \<Rightarrow> s16 \<Rightarrow> u64" where
  "phase_modified_seed base_seed p = base_seed + ucast (phase_id p)"

definition mapgen_seed :: "u64 \<Rightarrow> s16 \<Rightarrow> s32" where
  "mapgen_seed base_seed p = ucast (phase_modified_seed base_seed p)"

text \<open>
  The derivation as the specification words it, with the phase as the number it is in
  a coordinate, a signed 16-bit integer: \<open>(baseSeed + phase) mod 2^64\<close>. It is compared
  with \<open>phase_modified_seed\<close> below and used nowhere else.
\<close>

definition spec_derive :: "u64 \<Rightarrow> s16 \<Rightarrow> int" where
  "spec_derive baseSeed phase = (uint baseSeed + sint phase) mod 2 ^ 64"

text \<open>
  The earlier form of the same lines, which the 64-bit form above replaced:
  \<^verbatim>\<open>
  s32 base_seed = (s32)getSeed();
  u16 phase_id = (u16)p.P;
  s32 phase_modified_seed = base_seed + phase_id;
  \<close>
  Here the base seed is narrowed first and the sum is taken on 32 bits.
\<close>

definition phase_modified_seed_s32 :: "u64 \<Rightarrow> s16 \<Rightarrow> s32" where
  "phase_modified_seed_s32 seed p =
     (let base_seed = (ucast seed :: s32); phase_id = (phase_id p :: u16)
      in base_seed + ucast phase_id)"

text \<open>
  The assignment stands under \<^verbatim>\<open>if (p.P != 0 && m_emerge)\<close>: for Phase 0 the seed of
  the map generator is left as it is.
\<close>

definition emerge_seed :: "u64 \<Rightarrow> v4s16 \<Rightarrow> bool \<Rightarrow> s32 \<Rightarrow> s32" where
  "emerge_seed base_seed p m_emerge seed =
     (if P p \<noteq> 0 \<and> m_emerge then mapgen_seed base_seed (P p) else seed)"

section \<open>Block storage (\<^verbatim>\<open>map.cpp\<close>)\<close>

text \<open>
  Modelled from the spec: the class \<^verbatim>\<open>MapBlock\<close> and its method \<^verbatim>\<open>makeOrphan\<close> are
  declared elsewhere. A block carries an orphaned flag, which \<^verbatim>\<open>makeOrphan\<close> sets;
  \<open>destroyed\<close> records that \<^verbatim>\<open>delete\<close> has run on the block.
\<close>

record MapBlock =
  orphaned :: bool
  destroyed :: bool

text \<open>
  A \<^verbatim>\<open>MapBlock*\<close> is \<open>None\<close> (the null pointer) or the index of a block in the heap.
  \<^verbatim>\<open>std::unordered_map<v4s16, MapBlock*, v4s16::Hash> m_blocks;\<close>
\<close>

type_synonym addr = nat

record Map_state =
  m_blocks :: "v4s16 \<rightharpoonup> addr option"
  heap :: "MapBlock list"

text \<open>The statements of block deletion that touch a block or the table.\<close>

datatype stmt = MakeOrphan addr | Delete addr | Erase v4s16

text \<open>
  Modelled from the spec: \<^verbatim>\<open>block->makeOrphan()\<close> flips the orphaned flag of the block.
\<close>

definition makeOrphan :: "MapBlock \<Rightarrow> MapBlock" where
  "makeOrphan block = block\<lparr>orphaned := True\<rparr>"

text \<open>
  \<^verbatim>\<open>delete block;\<close> runs the destructor and releases the memory. The model keeps the
  cell of the block and marks it destroyed.
\<close>

definition delete_block :: "MapBlock \<Rightarrow> MapBlock" where
  "delete_block block = block\<lparr>destroyed := True\<rparr>"

text \<open>
  A statement acts on the block its pointer refers to. A pointer outside the heap refers
  to no block: C++ leaves such an access undefined, and the model leaves the heap as it
  is.
\<close>

definition at_addr :: "(MapBlock \<Rightarrow> MapBlock) \<Rightarrow> addr \<Rightarrow> MapBlock list \<Rightarrow> MapBlock list" where
  "at_addr f a h = (if a < length h then h[a := f (h ! a)] else h)"

fun exec :: "stmt \<Rightarrow> Map_state \<Rightarrow> Map_state" where
  "exec (MakeOrphan a) s = s\<lparr>heap := at_addr makeOrphan a (heap s)\<rparr>"
| "exec (Delete a) s = s\<lparr>heap := at_addr delete_block a (heap s)\<rparr>"
| "exec (Erase pos) s = s\<lparr>m_blocks := (m_blocks s)(pos := None)\<rparr>"

text \<open>
  \<^verbatim>\<open>
  auto it = m_blocks.find(pos);
  if (it != m_blocks.end()) {
      MapBlock *block = it->second;
      if (block) {
          block->makeOrphan();  // Prevent dangling references
          delete block;
      }
      m_blocks.erase(it);
  }
  \<close>
  \<open>deleteBlock_stmts\<close> is the sequence of statements the deletion runs, in program
  order; \<open>run\<close> gives every state the execution passes through after the first.
\<close>

definition deleteBlock_stmts :: "Map_state \<Rightarrow> v4s16 \<Rightarrow> stmt list" where
  "deleteBlock_stmts s pos =
     (case m_blocks s pos of
        None \<Rightarrow> []
      | Some block \<Rightarrow>
          (case block of None \<Rightarrow> [] | Some b \<Rightarrow> [MakeOrphan b, Delete b]) @ [Erase pos])"

fun run :: "stmt list \<Rightarrow> Map_state \<Rightarrow> Map_state list" where
  "run [] s = []"
| "run (c # cs) s = exec c s # run cs (exec c s)"

definition deleteBlock :: "Map_state \<Rightarrow> v4s16 \<Rightarrow> Map_state" where
  "deleteBlock s pos = fold exec (deleteBlock_stmts s pos) s"

text \<open>
  A sequence of deletions, one after the other, and every state it passes through.
\<close>

fun deleteBlocks_states :: "Map_state \<Rightarrow> v4s16 list \<Rightarrow> Map_state list" where
  "deleteBlocks_states s [] = []"
| "deleteBlocks_states s (pos # ps) =
     run (deleteBlock_stmts s pos) s @ deleteBlocks_states (deleteBlock s pos) ps"

text \<open>No block of the heap has been destroyed without being orphaned.\<close>

definition orphaned_before_destroyed :: "Map_state \<Rightarrow> bool" where
  "orphaned_before_destroyed s \<longleftrightarrow> list_all (\<lambda>b. destroyed b \<longrightarrow> orphaned b) (heap s)"

text \<open>
  Modelled from the spec: the lookup \<^verbatim>\<open>get\<close> of the block store, whose code is not
  among the files modelled here. It returns the block stored under the coordinate, or
  the absent indicator \<open>None\<close>, and leaves the table as it is.
\<close>

definition get :: "Map_state \<Rightarrow> v4s16 \<Rightarrow> addr option" where
  "get s pos = (case m_blocks s pos of None \<Rightarrow> None | Some block \<Rightarrow> block)"

section \<open>Equality of coordinates\<close>

lemma operator_eq_iff: "operator_eq a b \<longleftrightarrow> a = b"
  by (auto simp add: operator_eq_def)

lemma operator_neq_iff: "operator_neq a b \<longleftrightarrow> a \<noteq> b"
  by (simp add: operator_neq_def operator_eq_iff)

section \<open>The phase-aware encoding is a bijection\<close>

text \<open>
  The four lanes of the phase-aware key do not overlap, so the sum that builds the key
  is a bitwise disjunction, and every lane can be read back with a shift and a mask.
\<close>

lemma pack4_or:
  "push_bit 48 (ucast (p::16 word) :: 64 word) + push_bit 32 (ucast (z::16 word) :: 64 word)
      + push_bit 16 (ucast (y::16 word) :: 64 word) + (ucast (x::16 word))
   = ((push_bit 48 (ucast p) OR push_bit 32 (ucast z)) OR push_bit 16 (ucast y)) OR ucast x"
proof -
  have 1: "push_bit 48 (ucast p :: 64 word) + push_bit 32 (ucast z)
           = push_bit 48 (ucast p) OR push_bit 32 (ucast z)"
    by (rule disjunctive_add) (auto simp add: bit_simps dest: bit_imp_le_length)
  have 2: "(push_bit 48 (ucast p :: 64 word) OR push_bit 32 (ucast z)) + push_bit 16 (ucast y)
           = (push_bit 48 (ucast p) OR push_bit 32 (ucast z)) OR push_bit 16 (ucast y)"
    by (rule disjunctive_add) (auto simp add: bit_simps dest: bit_imp_le_length)
  have 3: "((push_bit 48 (ucast p :: 64 word) OR push_bit 32 (ucast z)) OR push_bit 16 (ucast y)) + ucast x
           = ((push_bit 48 (ucast p) OR push_bit 32 (ucast z)) OR push_bit 16 (ucast y)) OR ucast x"
    by (rule disjunctive_add) (auto simp add: bit_simps dest: bit_imp_le_length)
  show ?thesis by (simp only: 1 2 3)
qed

lemma mask16: "(0xFFFF :: 64 word) = mask 16"
  by (simp add: mask_eq_exp_minus_1)

lemma getBlockAsInteger_v4s16_or:
  "getBlockAsInteger_v4s16 pos =
     ((push_bit 48 (ucast (P pos)) OR push_bit 32 (ucast (v4s16.Z pos)))
       OR push_bit 16 (ucast (v4s16.Y pos))) OR ucast (v4s16.X pos)"
  unfolding getBlockAsInteger_v4s16_def Let_def by (rule pack4_or)

lemma getIntegerAsBlock_getBlockAsInteger_v4s16: "getIntegerAsBlock_v4s16 (getBlockAsInteger_v4s16 c) = c"
proof -
  let ?k = "getBlockAsInteger_v4s16 c"
  have x: "ucast (?k AND 0xFFFF) = v4s16.X c"
    unfolding getBlockAsInteger_v4s16_or mask16
    by (rule bit_word_eqI) (auto simp add: bit_simps dest: bit_imp_le_length)
  have y: "ucast (signed_drop_bit 16 ?k AND 0xFFFF) = v4s16.Y c"
    unfolding getBlockAsInteger_v4s16_or mask16
    by (rule bit_word_eqI) (auto simp add: bit_simps dest: bit_imp_le_length)
  have z: "ucast (signed_drop_bit 32 ?k AND 0xFFFF) = v4s16.Z c"
    unfolding getBlockAsInteger_v4s16_or mask16
    by (rule bit_word_eqI) (auto simp add: bit_simps dest: bit_imp_le_length)
  have p: "ucast (signed_drop_bit 48 ?k AND 0xFFFF) = v4s16.P c"
    unfolding getBlockAsInteger_v4s16_or mask16
    by (rule bit_word_eqI) (auto simp add: bit_simps dest: bit_imp_le_length)
  show ?thesis
    unfolding getIntegerAsBlock_v4s16_def by (simp only: x y z p) simp
qed

lemma getBlockAsInteger_getIntegerAsBlock_v4s16: "getBlockAsInteger_v4s16 (getIntegerAsBlock_v4s16 k) = k"
proof (rule bit_word_eqI)
  fix n assume n: "n < LENGTH(64)"
  consider "n < 16" | "16 \<le> n" "n < 32" | "32 \<le> n" "n < 48" | "48 \<le> n" "n < 64"
    using n by fastforce
  then show "bit (getBlockAsInteger_v4s16 (getIntegerAsBlock_v4s16 k)) n = bit k n"
    unfolding getBlockAsInteger_v4s16_or getIntegerAsBlock_v4s16_def mask16
    by cases (auto simp add: bit_simps dest: bit_imp_le_length)
qed


section \<open>The legacy encoding\<close>

text \<open>
  The legacy key is the integer \<open>Z * 2^24 + Y * 2^12 + X\<close> of the signed components.
  The decoder adds \<open>0x800800800\<close>, which turns it into three non-negative 12-bit
  lanes, reads the lanes with masks and takes the offset off each of them again.
\<close>

lemma getBlockAsInteger_v3s16_int:
  "getBlockAsInteger_v3s16 pos =
     word_of_int (sint (v3s16.Z pos) * 2 ^ 24 + sint (v3s16.Y pos) * 2 ^ 12 + sint (v3s16.X pos))"
  unfolding getBlockAsInteger_v3s16_def
  by (simp add: push_bit_eq_mult)

lemma getBlockAsInteger_v3s16_offset:
  "getBlockAsInteger_v3s16 pos + 0x800800800 =
     word_of_int ((sint (v3s16.Z pos) + 2048) * 2 ^ 24 + (sint (v3s16.Y pos) + 2048) * 2 ^ 12
                  + (sint (v3s16.X pos) + 2048))"
  unfolding getBlockAsInteger_v3s16_int
  by (simp add: algebra_simps)

lemma lane_mod:
  fixes a q :: int
  assumes "0 \<le> a" "a < 4096"
  shows "(q * 4096 + a) mod 4096 = a" and "(q * 4096 + a) div 4096 = q"
  using assms by simp_all

lemma lanes12_int:
  fixes a b c :: int
  assumes "0 \<le> a" "a < 4096" "0 \<le> b" "b < 4096" "0 \<le> c" "c < 4096"
  shows "(c * 2 ^ 24 + b * 2 ^ 12 + a) mod 4096 = a"
    and "(c * 2 ^ 24 + b * 2 ^ 12 + a) div 4096 mod 4096 = b"
    and "(c * 2 ^ 24 + b * 2 ^ 12 + a) div 2 ^ 24 mod 4096 = c"
proof -
  define q where "q = c * 4096 + b"
  have e: "c * 2 ^ 24 + b * 2 ^ 12 + a = q * 4096 + a" by (simp add: q_def)
  have d1: "(q * 4096 + a) div 4096 = q"
    using assms(1,2) by (rule lane_mod(2))
  have qb: "q mod 4096 = b" unfolding q_def using assms(3,4) by (rule lane_mod(1))
  have qc: "q div 4096 = c" unfolding q_def using assms(3,4) by (rule lane_mod(2))
  have c0: "c mod 4096 = c" using assms(5,6) by simp
  have d2: "(q * 4096 + a) div 2 ^ 24 = c"
  proof -
    have "(q * 4096 + a) div 2 ^ 24 = (q * 4096 + a) div 4096 div 4096"
      by (simp add: div_mult2_eq)
    also have "\<dots> = c" by (simp only: d1 qc)
    finally show ?thesis .
  qed
  show "(c * 2 ^ 24 + b * 2 ^ 12 + a) mod 4096 = a"
    unfolding e using assms(1,2) by (rule lane_mod(1))
  show "(c * 2 ^ 24 + b * 2 ^ 12 + a) div 4096 mod 4096 = b"
    by (simp only: e d1 qb)
  show "(c * 2 ^ 24 + b * 2 ^ 12 + a) div 2 ^ 24 mod 4096 = c"
    by (simp only: e d2 c0)
qed

lemma signed_drop_bit_small:
  fixes N :: int
  assumes "0 \<le> N" "N < 2 ^ 36"
  shows "uint (signed_drop_bit n (word_of_int N :: 64 word)) = N div 2 ^ n"
proof -
  let ?w = "word_of_int N :: 64 word"
  have s: "sint ?w = N" using assms
    by (simp add: sint_sbintrunc' signed_take_bit_int_eq_self)
  have "sint (signed_drop_bit n ?w) = N div 2 ^ n"
    by (simp only: sint_signed_drop_bit_eq s drop_bit_eq_div)
  moreover have "sint (word_of_int (N div 2 ^ n) :: 64 word) = N div 2 ^ n"
  proof -
    have "0 \<le> N div 2 ^ n" using assms by (simp add: pos_imp_zdiv_nonneg_iff)
    moreover have "N div 2 ^ n \<le> N" using zdiv_mono2 [of N 1 "2 ^ n"] assms by simp
    ultimately show ?thesis using assms
      by (simp add: sint_sbintrunc' signed_take_bit_int_eq_self)
  qed
  ultimately have "sint (signed_drop_bit n ?w) = sint (word_of_int (N div 2 ^ n) :: 64 word)"
    by simp
  then have w: "signed_drop_bit n ?w = word_of_int (N div 2 ^ n)"
    by (rule signed_word_eqI)
  have 0: "0 \<le> N div 2 ^ n" using assms by (simp add: pos_imp_zdiv_nonneg_iff)
  have "N div 2 ^ n \<le> N" using zdiv_mono2 [of N 1 "2 ^ n"] assms by simp
  then have 1: "N div 2 ^ n < 2 ^ 64" using assms by simp
  show ?thesis
    unfolding w using 0 1 by (simp add: uint_word_of_int)
qed

lemma unpack3:
  fixes a b c N :: int
  assumes "0 \<le> a" "a < 4096" "0 \<le> b" "b < 4096" "0 \<le> c" "c < 4096"
    and N: "N = c * 2 ^ 24 + b * 2 ^ 12 + a"
  shows "(word_of_int N :: 64 word) AND 0xFFF = word_of_int a"
    and "signed_drop_bit 12 (word_of_int N :: 64 word) AND 0xFFF = word_of_int b"
    and "signed_drop_bit 24 (word_of_int N :: 64 word) AND 0xFFF = word_of_int c"
proof -
  have N0: "0 \<le> N" using assms by simp
  have N1: "N < 2 ^ 36" using assms by simp
  note L = lanes12_int [OF assms(1-6), folded N]
  have m: "(0xFFF :: 64 word) = mask 12" by (simp add: mask_eq_exp_minus_1)
  have u: "uint (word_of_int N :: 64 word) = N"
    using signed_drop_bit_small [OF N0 N1, of 0] by simp
  show "(word_of_int N :: 64 word) AND 0xFFF = word_of_int a"
    unfolding m and_mask_mod_2p u using L(1) by simp
  show "signed_drop_bit 12 (word_of_int N :: 64 word) AND 0xFFF = word_of_int b"
    unfolding m and_mask_mod_2p signed_drop_bit_small [OF N0 N1] using L(2) by simp
  show "signed_drop_bit 24 (word_of_int N :: 64 word) AND 0xFFF = word_of_int c"
    unfolding m and_mask_mod_2p signed_drop_bit_small [OF N0 N1] using L(3) by simp
qed

lemma narrow_scast: "(ucast (scast (x :: 16 word) :: 64 word) :: 16 word) = x"
  by (rule bit_word_eqI) (auto simp add: bit_simps)

lemma narrow_lane:
  "(ucast ((word_of_int (sint (x :: 16 word) + 2048) :: 64 word) - 0x800) :: 16 word) = x"
proof -
  have "(word_of_int (sint x + 2048) :: 64 word) - 0x800 = word_of_int (sint x)"
    by (simp only: of_int_add of_int_numeral add_diff_cancel_right')
  also have "\<dots> = scast x" by (simp only: of_int_sint)
  finally show ?thesis by (simp only: narrow_scast)
qed

lemma getIntegerAsBlock_getBlockAsInteger_v3s16:
  assumes "- 2048 \<le> sint (v3s16.X c)" "sint (v3s16.X c) \<le> 2047"
    and "- 2048 \<le> sint (v3s16.Y c)" "sint (v3s16.Y c) \<le> 2047"
    and "- 2048 \<le> sint (v3s16.Z c)" "sint (v3s16.Z c) \<le> 2047"
  shows "getIntegerAsBlock_v3s16 (getBlockAsInteger_v3s16 c) = c"
proof -
  let ?a = "sint (v3s16.X c) + 2048" and ?b = "sint (v3s16.Y c) + 2048"
    and ?c = "sint (v3s16.Z c) + 2048"
  have r: "0 \<le> ?a" "?a < 4096" "0 \<le> ?b" "?b < 4096" "0 \<le> ?c" "?c < 4096"
    using assms by simp_all
  note U = unpack3 [OF r refl]
  show ?thesis
    unfolding getIntegerAsBlock_v3s16_def Let_def getBlockAsInteger_v3s16_offset U narrow_lane
    by simp
qed


section \<open>Round trips of the two encodings\<close>

text \<open>
  C1. Decoding the encoding returns the original coordinate: for every \<open>v4s16\<close> under
  the phase-aware scheme (as a value and under \<^verbatim>\<open>operator==\<close>), and for every \<open>v3s16\<close>
  whose components all lie in \<open>[-2047, 2047]\<close> under the legacy scheme.
\<close>

theorem codec_roundtrip:
  assumes "- 2047 \<le> sint (v3s16.X c3)" "sint (v3s16.X c3) \<le> 2047"
    and "- 2047 \<le> sint (v3s16.Y c3)" "sint (v3s16.Y c3) \<le> 2047"
    and "- 2047 \<le> sint (v3s16.Z c3)" "sint (v3s16.Z c3) \<le> 2047"
  shows "getIntegerAsBlock_v4s16 (getBlockAsInteger_v4s16 c4) = c4
       \<and> operator_eq (getIntegerAsBlock_v4s16 (getBlockAsInteger_v4s16 c4)) c4
       \<and> getIntegerAsBlock_v3s16 (getBlockAsInteger_v3s16 c3) = c3"
proof -
  have "getIntegerAsBlock_v3s16 (getBlockAsInteger_v3s16 c3) = c3"
    using assms by (intro getIntegerAsBlock_getBlockAsInteger_v3s16) simp_all
  then show ?thesis
    by (simp add: getIntegerAsBlock_getBlockAsInteger_v4s16 operator_eq_def)
qed

theorem codec_roundtrip_witness:
  "getIntegerAsBlock_v4s16 (getBlockAsInteger_v4s16 \<lparr>v4s16.X = 10, Y = 20, Z = 30, P = 0\<rparr>)
     = \<lparr>v4s16.X = 10, Y = 20, Z = 30, P = 0\<rparr>
   \<and> getIntegerAsBlock_v3s16 (getBlockAsInteger_v3s16 \<lparr>v3s16.X = - 2047, Y = 0, Z = 2047\<rparr>)
     = \<lparr>v3s16.X = - 2047, Y = 0, Z = 2047\<rparr>"
  using codec_roundtrip [of "\<lparr>v3s16.X = - 2047, Y = 0, Z = 2047\<rparr>"
      "\<lparr>v4s16.X = 10, Y = 20, Z = 30, P = 0\<rparr>"]
  by simp

text \<open>
  C10. Under the phase-aware scheme decoding is defined on every 64-bit key and encoding
  is its inverse on both sides, so the encoding is a bijection between \<open>v4s16\<close>
  coordinates and 64-bit keys.
\<close>

theorem codec4_bijection:
  "getBlockAsInteger_v4s16 (getIntegerAsBlock_v4s16 k) = k
   \<and> getIntegerAsBlock_v4s16 (getBlockAsInteger_v4s16 c) = c
   \<and> bij getBlockAsInteger_v4s16"
proof -
  have "bij getBlockAsInteger_v4s16"
    by (rule bij_betw_byWitness [where f' = getIntegerAsBlock_v4s16])
      (simp_all add: getIntegerAsBlock_getBlockAsInteger_v4s16
        getBlockAsInteger_getIntegerAsBlock_v4s16)
  then show ?thesis
    by (simp add: getIntegerAsBlock_getBlockAsInteger_v4s16
        getBlockAsInteger_getIntegerAsBlock_v4s16)
qed

section \<open>Where the offset of the legacy encoding is applied\<close>

lemma getBlockAsInteger_v3s16_sint:
  assumes "in_lane12 (v3s16.X pos)" "in_lane12 (v3s16.Y pos)" "in_lane12 (v3s16.Z pos)"
  shows "sint (getBlockAsInteger_v3s16 pos) =
           sint (v3s16.Z pos) * 2 ^ 24 + sint (v3s16.Y pos) * 2 ^ 12 + sint (v3s16.X pos)"
proof -
  let ?k = "sint (v3s16.Z pos) * 2 ^ 24 + sint (v3s16.Y pos) * 2 ^ 12 + sint (v3s16.X pos)"
  have "- (2 ^ 63) \<le> ?k" "?k < 2 ^ 63"
    using assms by (simp_all add: in_lane12_def)
  then have "signed_take_bit 63 ?k = ?k"
    by (simp add: signed_take_bit_int_eq_self)
  then show ?thesis
    unfolding getBlockAsInteger_v3s16_int by (simp only: sint_sbintrunc') simp
qed

text \<open>
  C5, as the claim states it: the legacy encoder would first move every component into
  non-negative space and pack afterwards, and would still send the origin to the key 0.
  The encoder adds no offset. At the origin it returns 0, where offsetting and then
  packing gives \<open>0x800800800\<close>; and the key of \<open>(-1, 0, 0)\<close> is \<open>-1\<close>, a negative key
  that is no pack of three non-negative 12-bit lanes.
\<close>

theorem legacy_encode_offset_counterexample:
  "getBlockAsInteger_v3s16 \<lparr>v3s16.X = 0, Y = 0, Z = 0\<rparr> = 0
   \<and> spec_legacy_encode \<lparr>v3s16.X = 0, Y = 0, Z = 0\<rparr> = 0x800800800
   \<and> getBlockAsInteger_v3s16 \<lparr>v3s16.X = 0, Y = 0, Z = 0\<rparr>
        \<noteq> spec_legacy_encode \<lparr>v3s16.X = 0, Y = 0, Z = 0\<rparr>
   \<and> sint (getBlockAsInteger_v3s16 \<lparr>v3s16.X = - 1, Y = 0, Z = 0\<rparr>) = - 1"
  by (simp add: getBlockAsInteger_v3s16_def spec_legacy_encode_def pack12_def)

text \<open>
  C5, amended. For every \<open>v3s16\<close> whose components fit the signed 12-bit lane, the
  legacy key is the plain sum \<open>Z * 2^24 + Y * 2^12 + X\<close> of the signed components, with
  no offset, so the origin encodes to the key 0 and a key can be negative: the key of
  \<open>(-1, 0, 0)\<close> is \<open>-1\<close>. The offset \<open>0x800800800\<close> that moves every component into non-negative space is
  added to the key by the decoder: key plus offset is the pack of the three lanes
  \<open>X + 0x800\<close>, \<open>Y + 0x800\<close>, \<open>Z + 0x800\<close>, a value below \<open>2^36\<close>, from which the decoder
  recovers the coordinate.
\<close>

theorem legacy_encode_plain_sum:
  assumes "in_lane12 (v3s16.X pos)" "in_lane12 (v3s16.Y pos)" "in_lane12 (v3s16.Z pos)"
  shows "sint (getBlockAsInteger_v3s16 pos) =
           sint (v3s16.Z pos) * 2 ^ 24 + sint (v3s16.Y pos) * 2 ^ 12 + sint (v3s16.X pos)
       \<and> getBlockAsInteger_v3s16 pos + 0x800800800 = spec_legacy_encode pos
       \<and> uint (spec_legacy_encode pos) =
           pack12 (sint (v3s16.X pos) + 0x800) (sint (v3s16.Y pos) + 0x800)
                  (sint (v3s16.Z pos) + 0x800)
       \<and> uint (spec_legacy_encode pos) < 2 ^ 36
       \<and> getIntegerAsBlock_v3s16 (getBlockAsInteger_v3s16 pos) = pos
       \<and> getBlockAsInteger_v3s16 \<lparr>v3s16.X = 0, Y = 0, Z = 0\<rparr> = 0
       \<and> sint (getBlockAsInteger_v3s16 \<lparr>v3s16.X = - 1, Y = 0, Z = 0\<rparr>) = - 1"
proof -
  let ?N = "pack12 (sint (v3s16.X pos) + 0x800) (sint (v3s16.Y pos) + 0x800)
                  (sint (v3s16.Z pos) + 0x800)"
  have N: "0 \<le> ?N" "?N < 2 ^ 36"
    using assms by (simp_all add: in_lane12_def pack12_def)
  have u: "uint (spec_legacy_encode pos) = ?N"
    unfolding spec_legacy_encode_def using N by (simp add: uint_word_of_int)
  have o: "getBlockAsInteger_v3s16 pos + 0x800800800 = spec_legacy_encode pos"
    unfolding getBlockAsInteger_v3s16_offset spec_legacy_encode_def pack12_def by simp
  have r: "getIntegerAsBlock_v3s16 (getBlockAsInteger_v3s16 pos) = pos"
    using assms by (intro getIntegerAsBlock_getBlockAsInteger_v3s16) (simp_all add: in_lane12_def)
  have z: "getBlockAsInteger_v3s16 \<lparr>v3s16.X = 0, Y = 0, Z = 0\<rparr> = 0"
    by (simp add: getBlockAsInteger_v3s16_def)
  have n: "sint (getBlockAsInteger_v3s16 \<lparr>v3s16.X = - 1, Y = 0, Z = 0\<rparr>) = - 1"
    by (simp add: getBlockAsInteger_v3s16_def)
  show ?thesis
    using getBlockAsInteger_v3s16_sint [OF assms] o u N(2) r z n by simp
qed

theorem legacy_encode_plain_sum_witness:
  "sint (getBlockAsInteger_v3s16 \<lparr>v3s16.X = - 1, Y = 2047, Z = - 2048\<rparr>) = - 34351353857
   \<and> uint (spec_legacy_encode \<lparr>v3s16.X = - 1, Y = 2047, Z = - 2048\<rparr>) = 16775167"
  using legacy_encode_plain_sum [of "\<lparr>v3s16.X = - 1, Y = 2047, Z = - 2048\<rparr>"]
  by (simp add: in_lane12_def pack12_def)

section \<open>The coordinate hash\<close>

text \<open>
  Every component can be read back from its own 16-bit lane of the hash, so the hash
  is injective.
\<close>

lemma Hash_lane_X: "ucast (drop_bit 48 (Hash c)) = v4s16.X c"
  unfolding Hash_def Let_def
  by (rule bit_word_eqI) (auto simp add: bit_simps dest: bit_imp_le_length)

lemma Hash_lane_Y: "ucast (drop_bit 32 (Hash c)) = v4s16.Y c"
  unfolding Hash_def Let_def
  by (rule bit_word_eqI) (auto simp add: bit_simps dest: bit_imp_le_length)

lemma Hash_lane_Z: "ucast (drop_bit 16 (Hash c)) = v4s16.Z c"
  unfolding Hash_def Let_def
  by (rule bit_word_eqI) (auto simp add: bit_simps dest: bit_imp_le_length)

lemma Hash_lane_P: "ucast (Hash c) = P c"
  unfolding Hash_def Let_def
  by (rule bit_word_eqI) (auto simp add: bit_simps dest: bit_imp_le_length)

lemma Hash_inj:
  assumes "Hash c1 = Hash c2"
  shows "c1 = c2"
proof -
  have "v4s16.X c1 = v4s16.X c2" using assms Hash_lane_X by metis
  moreover have "v4s16.Y c1 = v4s16.Y c2" using assms Hash_lane_Y by metis
  moreover have "v4s16.Z c1 = v4s16.Z c2" using assms Hash_lane_Z by metis
  moreover have "P c1 = P c2" using assms Hash_lane_P by metis
  ultimately show ?thesis by simp
qed

text \<open>
  C4, as the claim states it: Phase in the highest lane and X in the lowest. The hash of
  \<open>(1, 0, 0, 0)\<close> is \<open>2^48\<close>: X sits in the highest lane, where the claim's formula
  gives 1.
\<close>

theorem Hash_phase_highest_counterexample:
  "Hash \<lparr>v4s16.X = 1, Y = 0, Z = 0, P = 0\<rparr> = 2 ^ 48
   \<and> spec_Hash \<lparr>v4s16.X = 1, Y = 0, Z = 0, P = 0\<rparr> = 1
   \<and> Hash \<lparr>v4s16.X = 1, Y = 0, Z = 0, P = 0\<rparr> \<noteq> spec_Hash \<lparr>v4s16.X = 1, Y = 0, Z = 0, P = 0\<rparr>"
  by (simp add: Hash_def spec_Hash_def)

text \<open>
  C4, amended. The hash packs the four 16-bit unsigned component patterns into
  non-overlapping 16-bit lanes of a 64-bit word with X in the highest lane (bits 48-63),
  then Y (bits 32-47), then Z (bits 16-31), and Phase in the lowest lane (bits 0-15),
  combined with exclusive or: \<open>Hash(c) = (X << 48) ^ (Y << 32) ^ (Z << 16) ^ P\<close>, and
  every lane of the hash holds exactly its component.
\<close>

theorem Hash_lanes:
  "Hash c = push_bit 48 (ucast (v4s16.X c)) XOR push_bit 32 (ucast (v4s16.Y c))
              XOR push_bit 16 (ucast (v4s16.Z c)) XOR ucast (P c)
   \<and> ucast (drop_bit 48 (Hash c)) = v4s16.X c
   \<and> ucast (drop_bit 32 (Hash c)) = v4s16.Y c
   \<and> ucast (drop_bit 16 (Hash c)) = v4s16.Z c
   \<and> ucast (Hash c) = P c"
  by (simp add: Hash_lane_X Hash_lane_Y Hash_lane_Z Hash_lane_P) (simp add: Hash_def)

text \<open>
  C6. Two coordinates that differ in exactly one of the four components, the other
  three being equal, have different hashes.
\<close>

theorem Hash_single_component:
  assumes "(v4s16.X c1 \<noteq> v4s16.X c2 \<and> v4s16.Y c1 = v4s16.Y c2 \<and> v4s16.Z c1 = v4s16.Z c2 \<and> P c1 = P c2)
         \<or> (v4s16.X c1 = v4s16.X c2 \<and> v4s16.Y c1 \<noteq> v4s16.Y c2 \<and> v4s16.Z c1 = v4s16.Z c2 \<and> P c1 = P c2)
         \<or> (v4s16.X c1 = v4s16.X c2 \<and> v4s16.Y c1 = v4s16.Y c2 \<and> v4s16.Z c1 \<noteq> v4s16.Z c2 \<and> P c1 = P c2)
         \<or> (v4s16.X c1 = v4s16.X c2 \<and> v4s16.Y c1 = v4s16.Y c2 \<and> v4s16.Z c1 = v4s16.Z c2 \<and> P c1 \<noteq> P c2)"
  shows "Hash c1 \<noteq> Hash c2"
proof
  assume "Hash c1 = Hash c2"
  then have "c1 = c2" by (rule Hash_inj)
  with assms show False by simp
qed

theorem Hash_single_component_witness:
  "Hash \<lparr>v4s16.X = 1, Y = 2, Z = 3, P = 4\<rparr> \<noteq> Hash \<lparr>v4s16.X = 1, Y = 2, Z = 3, P = 5\<rparr>
   \<and> Hash \<lparr>v4s16.X = - 1, Y = 2, Z = 3, P = 4\<rparr> \<noteq> Hash \<lparr>v4s16.X = 0, Y = 2, Z = 3, P = 4\<rparr>"
  using Hash_single_component [of "\<lparr>v4s16.X = 1, Y = 2, Z = 3, P = 4\<rparr>" "\<lparr>v4s16.X = 1, Y = 2, Z = 3, P = 5\<rparr>"]
    Hash_single_component [of "\<lparr>v4s16.X = - 1, Y = 2, Z = 3, P = 4\<rparr>" "\<lparr>v4s16.X = 0, Y = 2, Z = 3, P = 4\<rparr>"]
  by simp

section \<open>Seed derivation\<close>

lemma phase_modified_seed_uint:
  "uint (phase_modified_seed base_seed p) = (uint base_seed + uint (phase_id p)) mod 2 ^ 64"
  unfolding phase_modified_seed_def
  by (simp add: uint_word_ariths uint_up_ucast is_up)

lemma mapgen_seed_uint:
  "uint (mapgen_seed base_seed p) = (uint base_seed + uint (phase_id p)) mod 2 ^ 64 mod 2 ^ 32"
  unfolding mapgen_seed_def
  by (simp add: unsigned_ucast_eq take_bit_eq_mod phase_modified_seed_uint)

text \<open>
  Narrowing after the addition and narrowing before it hand the same 32-bit seed to the
  map generator.
\<close>

lemma mapgen_seed_eq_s32: "mapgen_seed base_seed p = phase_modified_seed_s32 base_seed p"
proof (rule word_uint_eqI)
  have d: "(2 :: int) ^ 32 dvd 2 ^ 64" by (simp add: le_imp_power_dvd)
  have "uint (mapgen_seed base_seed p) = (uint base_seed + uint (phase_id p)) mod 2 ^ 64 mod 2 ^ 32"
    by (rule mapgen_seed_uint)
  also have "\<dots> = (uint base_seed + uint (phase_id p)) mod 2 ^ 32"
    using d by (rule mod_mod_cancel)
  also have "\<dots> = (uint base_seed mod 2 ^ 32 + uint (phase_id p)) mod 2 ^ 32"
    by (simp add: mod_add_left_eq)
  also have "\<dots> = uint (phase_modified_seed_s32 base_seed p)"
    unfolding phase_modified_seed_s32_def Let_def
    by (simp add: uint_word_ariths unsigned_ucast_eq take_bit_eq_mod mod_simps)
  finally show "uint (mapgen_seed base_seed p) = uint (phase_modified_seed_s32 base_seed p)" .
qed

text \<open>
  The cast \<^verbatim>\<open>(u16)p.P\<close> reads the phase as an unsigned number: a phase that is not
  negative is added as it is, a negative phase is added as \<open>phase + 65536\<close>.
\<close>

lemma uint_s16: "uint (p :: 16 word) = (if 0 \<le> sint p then sint p else sint p + 65536)"
proof -
  have b: "- 32768 \<le> sint p" "sint p < 32768"
    using sint_ge [of p] sint_lt [of p] by simp_all
  have u: "uint p = sint p mod 65536"
    by (simp add: uint_sint [of p] take_bit_eq_mod)
  show ?thesis
  proof (cases "0 \<le> sint p")
    case True
    then show ?thesis using b u by simp
  next
    case False
    have "(sint p + 65536) mod 65536 = sint p + 65536"
      using b False by (intro mod_pos_pos_trivial) simp_all
    moreover have "(sint p + 65536) mod 65536 = sint p mod 65536"
      by (rule mod_add_self2)
    ultimately show ?thesis using False u by (simp only: if_False)
  qed
qed

lemma phase_modified_seed_sint:
  "uint (phase_modified_seed base_seed p) =
     (uint base_seed + (if 0 \<le> sint p then sint p else sint p + 65536)) mod 2 ^ 64"
  by (simp only: phase_modified_seed_uint phase_id_def uint_s16)

lemma mapgen_seed_sint:
  "uint (mapgen_seed base_seed p) =
     (uint base_seed + (if 0 \<le> sint p then sint p else sint p + 65536)) mod 2 ^ 64 mod 2 ^ 32"
  by (simp only: mapgen_seed_uint phase_id_def uint_s16)

text \<open>
  C2, as the claim states it: the seed of a phase would be \<open>(baseSeed + phase) mod 2^64\<close>
  for every phase. For the phase \<open>-1\<close> and the base seed 0 the code gives 65535, where
  the claim's sum gives \<open>2^64 - 1\<close>.
\<close>

theorem seed_signed_phase_counterexample:
  "uint (phase_modified_seed 0 (- 1)) = 65535
   \<and> spec_derive 0 (- 1) = 18446744073709551615
   \<and> uint (phase_modified_seed 0 (- 1)) \<noteq> spec_derive 0 (- 1)"
  using phase_modified_seed_sint [of 0 "- 1"] by (simp add: spec_derive_def)

text \<open>
  C2, amended. For every phase that is not negative the seed of the phase is
  \<open>(baseSeed + phase) mod 2^64\<close>; for a negative phase it is
  \<open>(baseSeed + phase + 65536) mod 2^64\<close>, the phase being added as its unsigned 16-bit
  pattern. The sum is taken on 64-bit unsigned values, and the seed handed to the map
  generator is this 64-bit sum reduced modulo \<open>2^32\<close>, the narrowing being the last step.
  The base seed \<open>0xFFFFFFFFFFFFFFFF\<close> with phase 1 wraps around to 0.
\<close>

theorem seed_derivation:
  "uint (phase_modified_seed base_seed p) =
     (if 0 \<le> sint p then spec_derive base_seed p
      else (uint base_seed + (sint p + 65536)) mod 2 ^ 64)
   \<and> uint (mapgen_seed base_seed p) =
     (uint base_seed + (if 0 \<le> sint p then sint p else sint p + 65536)) mod 2 ^ 64 mod 2 ^ 32
   \<and> phase_modified_seed 0xFFFFFFFFFFFFFFFF 1 = 0"
proof -
  have 1: "uint (phase_modified_seed base_seed p) =
     (if 0 \<le> sint p then spec_derive base_seed p
      else (uint base_seed + (sint p + 65536)) mod 2 ^ 64)"
    unfolding phase_modified_seed_sint spec_derive_def by simp
  have 3: "phase_modified_seed 0xFFFFFFFFFFFFFFFF 1 = 0"
    by (simp add: phase_modified_seed_def phase_id_def)
  show ?thesis using 1 mapgen_seed_sint [of base_seed p] 3 by simp
qed

lemma ucast_phase_inj: "(ucast (p1 :: 16 word) :: 64 word) = ucast (p2 :: 16 word) \<Longrightarrow> p1 = p2"
proof -
  assume "(ucast p1 :: 64 word) = ucast p2"
  then have "(ucast (ucast p1 :: 64 word) :: 16 word) = ucast (ucast p2 :: 64 word)"
    by simp
  moreover have "(ucast (ucast p :: 64 word) :: 16 word) = p" for p :: "16 word"
    by (rule bit_word_eqI) (auto simp add: bit_simps)
  ultimately show "p1 = p2" by simp
qed

lemma emerge_seed_phase0: "P p = 0 \<Longrightarrow> emerge_seed base_seed p m_emerge seed = seed"
  by (simp add: emerge_seed_def)

text \<open>
  C7. At Phase 0 the derived seed is the base seed, for every 64-bit seed; and two
  different 16-bit phase identifiers never give the same derived seed.
\<close>

theorem seed_phase_identity:
  assumes "p1 \<noteq> p2"
  shows "phase_modified_seed seed 0 = seed
       \<and> phase_modified_seed seed p1 \<noteq> phase_modified_seed seed p2"
  using assms ucast_phase_inj
  by (auto simp add: phase_modified_seed_def phase_id_def)

theorem seed_phase_identity_witness:
  "phase_modified_seed 0xFFFFFFFFFFFFFFFF 0 = 0xFFFFFFFFFFFFFFFF
   \<and> phase_modified_seed 0xFFFFFFFFFFFFFFFF 1 \<noteq> phase_modified_seed 0xFFFFFFFFFFFFFFFF (- 1)"
  using seed_phase_identity [of 1 "- 1" "0xFFFFFFFFFFFFFFFF"]
  by simp

section \<open>Three-axis construction\<close>

text \<open>
  C8, as the claim states it: every 3-axis operation equals its 4-axis counterpart at
  Phase 0. The legacy key encoding takes a \<open>v3s16\<close> and is an overload of its own with
  12-bit lanes: for \<open>(0, 1, 0)\<close> it gives the key 4096, where the phase-aware
  encoding of the same position at Phase 0 gives 65536.
\<close>

theorem legacy_key_not_phase0_projection_counterexample:
  "getBlockAsInteger_v3s16 \<lparr>v3s16.X = 0, Y = 1, Z = 0\<rparr> = 4096
   \<and> getBlockAsInteger_v4s16 (v4s16_pos \<lparr>v3s16.X = 0, Y = 1, Z = 0\<rparr>) = 65536
   \<and> getBlockAsInteger_v3s16 \<lparr>v3s16.X = 0, Y = 1, Z = 0\<rparr>
       \<noteq> getBlockAsInteger_v4s16 (v4s16_pos_p \<lparr>v3s16.X = 0, Y = 1, Z = 0\<rparr> 0)"
  by (simp add: getBlockAsInteger_v3s16_def getBlockAsInteger_v4s16_def v4s16_pos_def
      v4s16_pos_p_def)

text \<open>
  C8, amended. Constructing a \<open>v4s16\<close> from a \<open>v3s16\<close>, or from three integers,
  without an explicit phase yields \<open>P = 0\<close> and the same X, Y, Z; the value equals the
  one built with Phase explicitly 0 (as a value and under \<^verbatim>\<open>operator==\<close>);
  \<open>toV3s16\<close> gives the original \<open>v3s16\<close> back; and the 4-axis hash and key encoding
  reached through this construction are the ones at Phase 0. The legacy key encoding
  of a \<open>v3s16\<close> is left out: it is not such a projection.
\<close>

theorem three_axis_construction_phase0:
  "P (v4s16_pos pos) = 0 \<and> v4s16.X (v4s16_pos pos) = v3s16.X pos
   \<and> v4s16.Y (v4s16_pos pos) = v3s16.Y pos \<and> v4s16.Z (v4s16_pos pos) = v3s16.Z pos
   \<and> v4s16_pos pos = v4s16_pos_p pos 0
   \<and> operator_eq (v4s16_pos pos) (v4s16_pos_p pos 0)
   \<and> P (v4s16_xyz x y z) = 0 \<and> v4s16.X (v4s16_xyz x y z) = x
   \<and> v4s16.Y (v4s16_xyz x y z) = y \<and> v4s16.Z (v4s16_xyz x y z) = z
   \<and> v4s16_xyz x y z = v4s16_xyzp x y z 0
   \<and> operator_eq (v4s16_xyz x y z) (v4s16_xyzp x y z 0)
   \<and> toV3s16 (v4s16_pos pos) = pos
   \<and> Hash (v4s16_pos pos) = Hash (v4s16_pos_p pos 0)
   \<and> getBlockAsInteger_v4s16 (v4s16_pos pos) = getBlockAsInteger_v4s16 (v4s16_pos_p pos 0)"
  by (simp add: v4s16_pos_def v4s16_pos_p_def v4s16_xyz_def v4s16_xyzp_def toV3s16_def
      operator_eq_def)

section \<open>Deleting blocks\<close>

text \<open>
  Every statement of a deletion keeps the heap free of blocks that are destroyed but
  not orphaned: \<open>makeOrphan\<close> and \<open>erase\<close> destroy nothing, and \<open>delete\<close> runs on a
  block that \<open>makeOrphan\<close> has just marked.
\<close>

lemma at_addr_keeps:
  assumes "list_all Q h" and "\<And>b. Q b \<Longrightarrow> Q (f b)"
  shows "list_all Q (at_addr f a h)"
  using assms by (auto simp add: at_addr_def list_all_length nth_list_update)

lemma exec_MakeOrphan_keeps:
  assumes "orphaned_before_destroyed s"
  shows "orphaned_before_destroyed (exec (MakeOrphan a) s)"
  using assms unfolding orphaned_before_destroyed_def
  by (auto intro!: at_addr_keeps simp add: makeOrphan_def)

lemma exec_Erase_keeps:
  assumes "orphaned_before_destroyed s"
  shows "orphaned_before_destroyed (exec (Erase pos) s)"
  using assms by (simp add: orphaned_before_destroyed_def)

lemma exec_MakeOrphan_Delete_keeps:
  assumes "orphaned_before_destroyed s"
  shows "orphaned_before_destroyed (exec (Delete a) (exec (MakeOrphan a) s))"
  using assms unfolding orphaned_before_destroyed_def
  by (auto simp add: at_addr_def list_all_length nth_list_update makeOrphan_def delete_block_def)

lemma deleteBlock_run_keeps:
  assumes "orphaned_before_destroyed s"
  shows "list_all orphaned_before_destroyed (run (deleteBlock_stmts s pos) s)"
proof (cases "m_blocks s pos")
  case None
  then show ?thesis by (simp add: deleteBlock_stmts_def)
next
  case (Some block)
  show ?thesis
  proof (cases block)
    case None
    with Some show ?thesis
      using exec_Erase_keeps [OF assms] by (simp add: deleteBlock_stmts_def)
  next
    case (Some b)
    have 1: "orphaned_before_destroyed (exec (MakeOrphan b) s)"
      using assms by (rule exec_MakeOrphan_keeps)
    have 2: "orphaned_before_destroyed (exec (Delete b) (exec (MakeOrphan b) s))"
      using assms by (rule exec_MakeOrphan_Delete_keeps)
    have 3: "orphaned_before_destroyed (exec (Erase pos) (exec (Delete b) (exec (MakeOrphan b) s)))"
      using 2 by (rule exec_Erase_keeps)
    from \<open>m_blocks s pos = Some block\<close> Some 1 2 3 show ?thesis
      by (simp add: deleteBlock_stmts_def)
  qed
qed

lemma fold_exec_last: "fold exec cs s = last (s # run cs s)"
  by (induction cs arbitrary: s) simp_all

lemma deleteBlock_keeps:
  assumes "orphaned_before_destroyed s"
  shows "orphaned_before_destroyed (deleteBlock s pos)"
proof -
  have "list_all orphaned_before_destroyed (s # run (deleteBlock_stmts s pos) s)"
    using assms deleteBlock_run_keeps [OF assms] by simp
  then have "orphaned_before_destroyed (last (s # run (deleteBlock_stmts s pos) s))"
    unfolding list_all_iff using last_in_set [of "s # run (deleteBlock_stmts s pos) s"] by blast
  then show ?thesis by (simp add: deleteBlock_def fold_exec_last)
qed

text \<open>
  C3. A deleted block is marked orphaned before it is destroyed. From a state in
  which no block is destroyed without being orphaned, every state that a sequence of
  deletions passes through, the states between the statements of one deletion
  included, is such a state again; and whenever a deletion runs \<open>delete\<close> on a block,
  the statement directly before it is \<open>makeOrphan\<close> on the same block.
\<close>

theorem orphaned_before_destroyed_invariant:
  assumes "orphaned_before_destroyed s"
  shows "list_all orphaned_before_destroyed (deleteBlocks_states s ps)
       \<and> (Delete b \<in> set (deleteBlock_stmts s pos) \<longrightarrow>
            deleteBlock_stmts s pos = [MakeOrphan b, Delete b, Erase pos])"
proof -
  have "list_all orphaned_before_destroyed (deleteBlocks_states s ps)"
    using assms
  proof (induction ps arbitrary: s)
    case Nil
    then show ?case by simp
  next
    case (Cons pos ps)
    have "list_all orphaned_before_destroyed (run (deleteBlock_stmts s pos) s)"
      using Cons.prems by (rule deleteBlock_run_keeps)
    moreover have "list_all orphaned_before_destroyed (deleteBlocks_states (deleteBlock s pos) ps)"
      using Cons.prems by (intro Cons.IH deleteBlock_keeps)
    ultimately show ?case by simp
  qed
  moreover have "Delete b \<in> set (deleteBlock_stmts s pos) \<longrightarrow>
      deleteBlock_stmts s pos = [MakeOrphan b, Delete b, Erase pos]"
    by (auto simp add: deleteBlock_stmts_def split: option.splits)
  ultimately show ?thesis by simp
qed

theorem orphaned_before_destroyed_invariant_witness:
  "map heap (deleteBlocks_states
      \<lparr>m_blocks = [\<lparr>v4s16.X = 10, Y = 20, Z = 30, P = 0\<rparr> \<mapsto> Some 0],
       heap = [\<lparr>orphaned = False, destroyed = False\<rparr>]\<rparr>
      [\<lparr>v4s16.X = 10, Y = 20, Z = 30, P = 0\<rparr>])
     = [[\<lparr>orphaned = True, destroyed = False\<rparr>],
        [\<lparr>orphaned = True, destroyed = True\<rparr>],
        [\<lparr>orphaned = True, destroyed = True\<rparr>]]
   \<and> list_all orphaned_before_destroyed (deleteBlocks_states
      \<lparr>m_blocks = [\<lparr>v4s16.X = 10, Y = 20, Z = 30, P = 0\<rparr> \<mapsto> Some 0],
       heap = [\<lparr>orphaned = False, destroyed = False\<rparr>]\<rparr>
      [\<lparr>v4s16.X = 10, Y = 20, Z = 30, P = 0\<rparr>])
   \<and> deleteBlock_stmts
      \<lparr>m_blocks = [\<lparr>v4s16.X = 10, Y = 20, Z = 30, P = 0\<rparr> \<mapsto> Some 0],
       heap = [\<lparr>orphaned = False, destroyed = False\<rparr>]\<rparr>
      \<lparr>v4s16.X = 10, Y = 20, Z = 30, P = 0\<rparr>
     = [MakeOrphan 0, Delete 0, Erase \<lparr>v4s16.X = 10, Y = 20, Z = 30, P = 0\<rparr>]"
  using orphaned_before_destroyed_invariant
    [of "\<lparr>m_blocks = [\<lparr>v4s16.X = 10, Y = 20, Z = 30, P = 0\<rparr> \<mapsto> Some 0],
          heap = [\<lparr>orphaned = False, destroyed = False\<rparr>]\<rparr>"
        "[\<lparr>v4s16.X = 10, Y = 20, Z = 30, P = 0\<rparr>]" 0
        "\<lparr>v4s16.X = 10, Y = 20, Z = 30, P = 0\<rparr>"]
  by (simp add: orphaned_before_destroyed_def deleteBlock_stmts_def at_addr_def
      makeOrphan_def delete_block_def)

text \<open>
  C9. For a coordinate that is not in the table, \<open>get\<close> returns the absent
  indicator, and the deletion runs no statement and returns the state unchanged.
\<close>

theorem absent_get_and_delete:
  assumes "m_blocks s pos = None"
  shows "get s pos = None \<and> deleteBlock_stmts s pos = [] \<and> deleteBlock s pos = s"
  using assms by (simp add: get_def deleteBlock_stmts_def deleteBlock_def)

theorem absent_get_and_delete_witness:
  "get \<lparr>m_blocks = [\<lparr>v4s16.X = 10, Y = 20, Z = 30, P = 0\<rparr> \<mapsto> Some 0],
        heap = [\<lparr>orphaned = False, destroyed = False\<rparr>]\<rparr>
       \<lparr>v4s16.X = 10, Y = 20, Z = 30, P = 1\<rparr> = None
   \<and> deleteBlock \<lparr>m_blocks = [\<lparr>v4s16.X = 10, Y = 20, Z = 30, P = 0\<rparr> \<mapsto> Some 0],
        heap = [\<lparr>orphaned = False, destroyed = False\<rparr>]\<rparr>
       \<lparr>v4s16.X = 10, Y = 20, Z = 30, P = 1\<rparr>
     = \<lparr>m_blocks = [\<lparr>v4s16.X = 10, Y = 20, Z = 30, P = 0\<rparr> \<mapsto> Some 0],
        heap = [\<lparr>orphaned = False, destroyed = False\<rparr>]\<rparr>"
  using absent_get_and_delete
    [of "\<lparr>m_blocks = [\<lparr>v4s16.X = 10, Y = 20, Z = 30, P = 0\<rparr> \<mapsto> Some 0],
          heap = [\<lparr>orphaned = False, destroyed = False\<rparr>]\<rparr>"
        "\<lparr>v4s16.X = 10, Y = 20, Z = 30, P = 1\<rparr>"]
  by simp

end
